theory Spec2Isabelle
  imports Complex_Main "HOL-Library.Sublist" "HOL-Library.AList"
begin

section \<open>JavaScript primitives used by \<open>vantageInfusion.ts\<close>\<close>

text \<open>
  Strings are lists of code units below 256 (\<^typ>\<open>char\<close>); the protocol is ASCII.
  \<open>undefined\<close> is \<^term>\<open>None\<close>; \<open>NaN\<close> is \<^term>\<open>None\<close> for the result of
  \<open>parseInt\<close> and the constructor \<open>NaN\<close> for the result of \<open>parseFloat\<close>.
\<close>

abbreviation LF :: char where "LF \<equiv> CHR 0x0A"
abbreviation CR :: char where "CR \<equiv> CHR 0x0D"
abbreviation SP :: char where "SP \<equiv> CHR 0x20"

text \<open>\<open>xs[i]\<close>: \<open>undefined\<close> out of range.\<close>

fun nth_opt :: "'a list \<Rightarrow> nat \<Rightarrow> 'a option" where
  "nth_opt [] i = None"
| "nth_opt (x # xs) 0 = Some x"
| "nth_opt (x # xs) (Suc i) = nth_opt xs i"

text \<open>\<open>s.split(sep)\<close> for a separator of one character: never the empty list.\<close>

fun split_on :: "char \<Rightarrow> string \<Rightarrow> string list" where
  "split_on sep [] = [[]]"
| "split_on sep (c # cs) =
     (if c = sep then [] # split_on sep cs
      else (case split_on sep cs of l # ls \<Rightarrow> (c # l) # ls | [] \<Rightarrow> [[c]]))"

text \<open>\<open>s.includes(pat)\<close>.\<close>

fun includes_str :: "string \<Rightarrow> string \<Rightarrow> bool" where
  "includes_str [] pat = (pat = [])"
| "includes_str (c # cs) pat = (prefix pat (c # cs) \<or> includes_str cs pat)"

text \<open>White space of \<open>trim\<close>, \<open>parseInt\<close>, \<open>parseFloat\<close> and the class \<open>\s\<close>.\<close>

definition is_space :: "char \<Rightarrow> bool" where
  "is_space c = (c \<in> set [CHR 0x09, LF, CHR 0x0B, CHR 0x0C, CR, SP, CHR 0xA0])"

definition trim :: "string \<Rightarrow> string" where
  "trim s = rev (dropWhile is_space (rev (dropWhile is_space s)))"

definition digit_of :: "nat \<Rightarrow> char \<Rightarrow> nat option" where
  "digit_of radix c =
     (let n = (of_char c :: nat);
          v = (if 48 \<le> n \<and> n \<le> 57 then Some (n - 48)
               else if 97 \<le> n \<and> n \<le> 122 then Some (n - 87)
               else if 65 \<le> n \<and> n \<le> 90 then Some (n - 55)
               else None)
      in case v of Some d \<Rightarrow> if d < radix then Some d else None | None \<Rightarrow> None)"

definition is_digit :: "char \<Rightarrow> bool" where
  "is_digit c = (digit_of 10 c \<noteq> None)"

definition digits_val :: "nat \<Rightarrow> string \<Rightarrow> nat" where
  "digits_val radix ds = foldl (\<lambda>a c. a * radix + the (digit_of radix c)) 0 ds"

text \<open>
  \<open>parseInt(s)\<close> with no radix: leading white space, a sign, a \<open>0x\<close> prefix, then the
  longest run of digits; \<open>NaN\<close> (\<^term>\<open>None\<close>) when the run is empty. The value is the
  exact integer (JavaScript rounds it to a double beyond \<open>2^53\<close>).
\<close>

definition parseInt :: "string \<Rightarrow> int option" where
  "parseInt s =
     (let s1 = dropWhile is_space s;
          neg = (case s1 of c # r \<Rightarrow> c = CHR ''-'' | [] \<Rightarrow> False);
          s2 = (case s1 of c # r \<Rightarrow> if c = CHR ''-'' \<or> c = CHR ''+'' then r else s1 | [] \<Rightarrow> s1);
          hex = (prefix ''0x'' s2 \<or> prefix ''0X'' s2);
          radix = (if hex then 16 else 10);
          s3 = (if hex then drop 2 s2 else s2);
          z = takeWhile (\<lambda>c. digit_of radix c \<noteq> None) s3
      in if z = [] then None
         else Some ((if neg then - 1 else 1) * int (digits_val radix z)))"

text \<open>\<open>parseInt(x)\<close> of a value that may be \<open>undefined\<close>: its string is \<open>undefined\<close>.\<close>

definition parseInt_arg :: "string option \<Rightarrow> int option" where
  "parseInt_arg a = (case a of None \<Rightarrow> parseInt ''undefined'' | Some s \<Rightarrow> parseInt s)"

text \<open>
  A JavaScript number as \<open>parseFloat\<close> gives it: \<open>Fin q\<close> stands for the double nearest to
  the decimal value \<open>q\<close>.
\<close>

datatype jsnum = NaN | PosInf | NegInf | Fin rat

definition exponent_of :: "string \<Rightarrow> int" where
  "exponent_of s =
     (case s of
        [] \<Rightarrow> 0
      | e # t \<Rightarrow>
          if e = CHR ''e'' \<or> e = CHR ''E'' then
            (let neg = (case t of c # r \<Rightarrow> c = CHR ''-'' | [] \<Rightarrow> False);
                 t1 = (case t of c # r \<Rightarrow> if c = CHR ''-'' \<or> c = CHR ''+'' then r else t | [] \<Rightarrow> t);
                 ds = takeWhile is_digit t1
             in if ds = [] then 0
                else (if neg then - 1 else 1) * int (digits_val 10 ds))
          else 0)"

definition scale10 :: "rat \<Rightarrow> int \<Rightarrow> rat" where
  "scale10 q e = (if 0 \<le> e then q * 10 ^ nat e else q / 10 ^ nat (- e))"

text \<open>
  \<open>parseFloat(s)\<close>: leading white space, a sign, then the longest prefix that is
  \<open>Infinity\<close> or a decimal literal (digits, a fraction, an exponent); \<open>NaN\<close> otherwise.
\<close>

definition parseFloat :: "string \<Rightarrow> jsnum" where
  "parseFloat s =
     (let s1 = dropWhile is_space s;
          neg = (case s1 of c # r \<Rightarrow> c = CHR ''-'' | [] \<Rightarrow> False);
          s2 = (case s1 of c # r \<Rightarrow> if c = CHR ''-'' \<or> c = CHR ''+'' then r else s1 | [] \<Rightarrow> s1);
          ip = takeWhile is_digit s2;
          r1 = dropWhile is_digit s2;
          dot = (case r1 of c # t \<Rightarrow> c = CHR ''.'' | [] \<Rightarrow> False);
          fp = (if dot then takeWhile is_digit (tl r1) else []);
          r2 = (if dot then dropWhile is_digit (tl r1) else r1);
          q = scale10 (of_nat (digits_val 10 (ip @ fp))) (exponent_of r2 - int (length fp))
      in if prefix ''Infinity'' s2 then (if neg then NegInf else PosInf)
         else if ip = [] \<and> fp = [] then NaN
         else Fin (if neg then - q else q))"

definition parseFloat_arg :: "string option \<Rightarrow> jsnum" where
  "parseFloat_arg a = (case a of None \<Rightarrow> parseFloat ''undefined'' | Some s \<Rightarrow> parseFloat s)"

text \<open>\<open>String(n)\<close> of an integer.\<close>

fun show_nat :: "nat \<Rightarrow> string" where
  "show_nat n =
     (if n < 10 then [''0123456789'' ! n]
      else show_nat (n div 10) @ [''0123456789'' ! (n mod 10)])"

definition show_int :: "int \<Rightarrow> string" where
  "show_int i = (if i < 0 then CHR ''-'' # show_nat (nat (- i)) else show_nat (nat i))"

text \<open>
  \<open>sprintf(format, ...args)\<close> of sprintf-js for the formats of this file, whose only
  placeholder is \<open>%s\<close>, each with its argument.
\<close>

fun sprintf :: "string \<Rightarrow> string list \<Rightarrow> string" where
  "sprintf [] args = []"
| "sprintf [c] args = [c]"
| "sprintf (c # d # fs) args =
     (if c = CHR ''%'' \<and> d = CHR ''s''
      then (case args of a # as \<Rightarrow> a @ sprintf fs as | [] \<Rightarrow> sprintf fs [])
      else c # sprintf (d # fs) args)"

section \<open>Command channel: line decoding and dispatch\<close>

datatype error = TypeError | ParseError

text \<open>The events \<open>processCommandResponse\<close> emits, with their arguments.\<close>

datatype event =
    BlindStatusChange "string option" "int option"
  | LoadStatusChange "string option" "int option"
  | ThermostatDidChange "string option"
  | ThermostatIndoorTemperatureChange "string option" jsnum
  | ThermostatIndoorModeChange "string option" nat jsnum

text \<open>
  The \<open>modeVal\<close> of a mode token. \<open>args[1].includes\<close> throws a \<open>TypeError\<close> when
  \<open>args[1]\<close> is \<open>undefined\<close>.
\<close>

definition modeVal :: "string \<Rightarrow> nat" where
  "modeVal tok =
     (if includes_str tok ''OFF'' then 0
      else if includes_str tok ''HEAT'' then 1
      else if includes_str tok ''COOL'' then 2
      else 3)"

definition processCommandResponse :: "string list \<Rightarrow> error + event list" where
  "processCommandResponse parts =
     (let command = nth_opt parts 0; args = drop 1 parts in
      if command = Some ''S:BLIND'' \<or> command = Some ''R:GETBLIND'' then
        Inr [BlindStatusChange (nth_opt args 0) (parseInt_arg (nth_opt args 1))]
      else if command = Some ''S:LOAD'' \<or> command = Some ''R:GETLOAD'' then
        Inr [LoadStatusChange (nth_opt args 0) (parseInt_arg (nth_opt args 1))]
      else if command = Some ''S:TEMP'' then
        Inr [ThermostatDidChange (nth_opt args 1)]
      else if command = Some ''R:INVOKE'' then
        (case nth_opt args 2 of
           None \<Rightarrow> Inr []
         | Some m \<Rightarrow>
             if includes_str m ''Thermostat.GetIndoorTemperature''
             then Inr [ThermostatIndoorTemperatureChange (nth_opt args 0) (parseFloat_arg (nth_opt args 1))]
             else Inr [])
      else if command = Some ''S:THERMOP'' \<or> command = Some ''R:GETTHERMOP''
              \<or> command = Some ''R:THERMTEMP'' then
        (case nth_opt args 1 of
           None \<Rightarrow> Inl TypeError
         | Some tok \<Rightarrow>
             Inr [ThermostatIndoorModeChange (nth_opt args 0) (modeVal tok)
                    (if command = Some ''R:THERMTEMP'' then parseFloat_arg (nth_opt args 2)
                     else Fin (- 1))])
      else Inr [])"

text \<open>
  The loop of \<open>handleCommandData\<close> over the lines of one chunk: the events emitted, and
  the exception that left the loop, if any (nothing catches it).
\<close>

fun dispatch_lines :: "string list \<Rightarrow> event list \<times> error option" where
  "dispatch_lines [] = ([], None)"
| "dispatch_lines (line # ls) =
     (let parts = split_on SP line in
      if parts = [] then dispatch_lines ls
      else (case processCommandResponse parts of
              Inl e \<Rightarrow> ([], Some e)
            | Inr evs \<Rightarrow> (case dispatch_lines ls of (evs', r) \<Rightarrow> (evs @ evs', r))))"

definition handleCommandData :: "string \<Rightarrow> event list \<times> error option" where
  "handleCommandData data = dispatch_lines (split_on LF data)"



section \<open>Command channel: outbound thermostat setpoint\<close>

text \<open>
  The writes of \<open>setThermostatTemperature\<close> to the command socket, in order. \<open>str\<close> is
  \<open>String\<close> on the numbers (\<open>%s\<close> of a number); the numbers are ordered, so \<open>NaN\<close> is
  not among them.
\<close>

definition setThermostatTemperature ::
  "('n::linorder \<Rightarrow> string) \<Rightarrow> string \<Rightarrow> 'n \<Rightarrow> int \<Rightarrow> 'n \<Rightarrow> 'n \<Rightarrow> string list" where
  "setThermostatTemperature str vid val mode heating cooling =
     (if mode = 1 then [sprintf (''THERMTEMP %s HEAT %s'' @ [LF]) [vid, str val]]
      else if mode = 2 then [sprintf (''THERMTEMP %s COOL %s'' @ [LF]) [vid, str val]]
      else if mode = 3 then
        (if val > cooling then [sprintf (''THERMTEMP %s COOL %s'' @ [LF]) [vid, str val]]
         else if val < heating then [sprintf (''THERMTEMP %s HEAT %s'' @ [LF]) [vid, str val]]
         else [])
      else [])"

section \<open>Command channel: reconnection\<close>

text \<open>
  The listeners of the command socket's \<open>close\<close> event: \<open>Disconnected\<close> is the one
  \<open>setupCommandSocket\<close> registers (it logs and calls \<open>setupReconnection\<close>);
  \<open>Reconnect\<close> is the one \<open>setupReconnection\<close> registers (it starts a timer of 5000 ms
  whose callback calls \<open>commandSocket.connect\<close>).
\<close>

datatype close_listener = Disconnected | Reconnect

record command_socket =
  close_listeners :: "close_listener list"
  timers :: "nat list"

definition setupReconnection :: "command_socket \<Rightarrow> command_socket" where
  "setupReconnection s = s\<lparr>close_listeners := close_listeners s @ [Reconnect]\<rparr>"

fun run_close_listener :: "close_listener \<Rightarrow> command_socket \<Rightarrow> command_socket" where
  "run_close_listener Disconnected s = setupReconnection s"
| "run_close_listener Reconnect s = s\<lparr>timers := timers s @ [5000]\<rparr>"

text \<open>
  \<open>emit('close')\<close>: the listeners registered when the emit starts run in the order of
  their registration; one registered during the emit runs from the next emit on.
\<close>

definition emit_close :: "command_socket \<Rightarrow> command_socket" where
  "emit_close s = fold run_close_listener (close_listeners s) s"

definition setupCommandSocket :: command_socket where
  "setupCommandSocket = \<lparr>close_listeners = [Disconnected], timers = []\<rparr>"

text \<open>The oldest pending timer fires and is pending no more.\<close>

definition timer_fired :: "command_socket \<Rightarrow> command_socket" where
  "timer_fired s = s\<lparr>timers := drop 1 (timers s)\<rparr>"

section \<open>Regular expressions of the backup parser\<close>

text \<open>
  The regular expressions of the file are sequences of literals and of repeated
  character classes (\<open>[^c]\<close>, \<open>.\<close>, \<open>\s\<close>), greedy or lazy, with a minimum count, captured
  or not. \<open>re_match\<close> matches at the start of the input with JavaScript's backtracking order
  and gives the captures and the rest of the input.
\<close>

datatype cls = NotC char | Dot | Space

fun cls_ok :: "cls \<Rightarrow> char \<Rightarrow> bool" where
  "cls_ok (NotC x) c = (c \<noteq> x)"
| "cls_ok Dot c = (c \<noteq> LF \<and> c \<noteq> CR)"
| "cls_ok Space c = is_space c"

datatype atom = Lit string | Rep cls bool nat bool

fun re_match :: "atom list \<Rightarrow> string \<Rightarrow> (string list \<times> string) option"
and re_repeat :: "cls \<Rightarrow> bool \<Rightarrow> nat \<Rightarrow> bool \<Rightarrow> atom list \<Rightarrow> string \<Rightarrow> string \<Rightarrow> (string list \<times> string) option" where
  "re_match [] s = Some ([], s)"
| "re_match (Lit l # as) s = (if prefix l s then re_match as (drop (length l) s) else None)"
| "re_match (Rep c g mn cap # as) s = re_repeat c g mn cap as [] s"
| "re_repeat c True mn cap as acc s =
     (case (case s of x # xs \<Rightarrow> if cls_ok c x then re_repeat c True mn cap as (x # acc) xs else None
                    | [] \<Rightarrow> None) of
        Some r \<Rightarrow> Some r
      | None \<Rightarrow>
          (if mn \<le> length acc
           then (case re_match as s of Some (gs, r) \<Rightarrow> Some (if cap then rev acc # gs else gs, r)
                               | None \<Rightarrow> None)
           else None))"
| "re_repeat c False mn cap as acc s =
     (case (if mn \<le> length acc
            then (case re_match as s of Some (gs, r) \<Rightarrow> Some (if cap then rev acc # gs else gs, r)
                                | None \<Rightarrow> None)
            else None) of
        Some r \<Rightarrow> Some r
      | None \<Rightarrow>
          (case s of x # xs \<Rightarrow> if cls_ok c x then re_repeat c False mn cap as (x # acc) xs else None
                   | [] \<Rightarrow> None))"

text \<open>
  \<open>re.exec(s)\<close> from the start: the leftmost match, as the matched text, the captures
  and the input after the match.
\<close>

fun re_search :: "atom list \<Rightarrow> string \<Rightarrow> (string \<times> string list \<times> string) option" where
  "re_search re [] = (case re_match re [] of Some (gs, r) \<Rightarrow> Some ([], gs, r) | None \<Rightarrow> None)"
| "re_search re (c # cs) =
     (case re_match re (c # cs) of
        Some (gs, r) \<Rightarrow> Some (take (length (c # cs) - length r) (c # cs), gs, r)
      | None \<Rightarrow> re_search re cs)"

text \<open>
  The loop \<open>while ((m = re.exec(s)) !== null)\<close> of a regular expression with the flag
  \<open>g\<close>: each search starts where the last match ended. Every regular expression of the
  file starts with a literal, so a match is never empty; the loop is cut after an empty
  match, which would repeat for ever.
\<close>

function exec_all :: "atom list \<Rightarrow> string \<Rightarrow> (string \<times> string list) list" where
  "exec_all re s =
     (case re_search re s of
        None \<Rightarrow> []
      | Some (m, gs, r) \<Rightarrow> if length r < length s then (m, gs) # exec_all re r else [(m, gs)])"
  by pat_completeness auto
termination
  by (relation "measure (\<lambda>(re, s). length s)") auto

declare exec_all.simps [simp del]

text \<open>The first capture of the first match: \<open>re.exec(s)[1]\<close>, or \<open>null\<close>.\<close>

definition group1 :: "atom list \<Rightarrow> string \<Rightarrow> string option" where
  "group1 re s = (case re_search re s of Some (m, g # gs, r) \<Rightarrow> Some g | _ \<Rightarrow> None)"

text \<open>\<open>/<Tag>(.*?)<\/Tag>/\<close>\<close>

definition sectionRegex :: "string \<Rightarrow> atom list" where
  "sectionRegex tag = [Lit (''<'' @ tag @ ''>''), Rep Dot False 0 True, Lit (''</'' @ tag @ ''>'')]"

text \<open>\<open>/<Tag>([^<]+)<\/Tag>/\<close>\<close>

definition elementRegex :: "string \<Rightarrow> atom list" where
  "elementRegex tag =
     [Lit (''<'' @ tag @ ''>''), Rep (NotC (CHR ''<'')) True 1 True, Lit (''</'' @ tag @ ''>'')]"

text \<open>\<open>/VID="([^"]+)"/\<close>\<close>

definition vidAttributeRegex :: "atom list" where
  "vidAttributeRegex = [Lit (''VID='' @ [CHR 0x22]), Rep (NotC (CHR 0x22)) True 1 True, Lit [CHR 0x22]]"

text \<open>\<open><Type([^>]*)>.*?<Name>([^<]+)<\/Name>.*?<\/Type>\<close>\<close>

definition deviceRegex :: "string \<Rightarrow> atom list" where
  "deviceRegex type =
     [Lit (''<'' @ type), Rep (NotC (CHR ''>'')) True 0 True, Lit ''>'',
      Rep Dot False 0 False, Lit ''<Name>'', Rep (NotC (CHR ''<'')) True 1 True, Lit ''</Name>'',
      Rep Dot False 0 False, Lit (''</'' @ type @ ''>'')]"

text \<open>
  \<open>/<Object>\s*<Area\s+VID="([^"]+)"[^>]*>.*?<Name>([^<]+)<\/Name>.*?<\/Area>\s*<\/Object>/\<close>
\<close>

definition areaRegex :: "atom list" where
  "areaRegex =
     [Lit ''<Object>'', Rep Space True 0 False, Lit ''<Area'', Rep Space True 1 False,
      Lit (''VID='' @ [CHR 0x22]), Rep (NotC (CHR 0x22)) True 1 True, Lit [CHR 0x22],
      Rep (NotC (CHR ''>'')) True 0 False, Lit ''>'',
      Rep Dot False 0 False, Lit ''<Name>'', Rep (NotC (CHR ''<'')) True 1 True, Lit ''</Name>'',
      Rep Dot False 0 False, Lit ''</Area>'', Rep Space True 0 False, Lit ''</Object>'']"

section \<open>Values of the XML parser\<close>

text \<open>
  What \<open>XMLParser.parse\<close> (fast-xml-parser, not part of this repository) builds: strings,
  numbers, booleans, arrays and objects; never \<open>undefined\<close> or \<open>null\<close>. Numbers are
  integers here. A property that is absent is \<open>undefined\<close> (\<^term>\<open>None\<close>).
\<close>

datatype jsval = JStr string | JNum int | JBool bool | JArr "jsval list" | JObj "(string \<times> jsval) list"

fun truthy :: "jsval \<Rightarrow> bool" where
  "truthy (JStr s) = (s \<noteq> [])"
| "truthy (JNum n) = (n \<noteq> 0)"
| "truthy (JBool b) = b"
| "truthy (JArr xs) = True"
| "truthy (JObj kvs) = True"

definition truthy_opt :: "jsval option \<Rightarrow> bool" where
  "truthy_opt v = (case v of None \<Rightarrow> False | Some x \<Rightarrow> truthy x)"

text \<open>\<open>v.k\<close> and \<open>v[k]\<close> for the property names the file reads.\<close>

fun get :: "jsval \<Rightarrow> string \<Rightarrow> jsval option" where
  "get (JObj kvs) k = map_of kvs k"
| "get (JStr s) k = None"
| "get (JNum n) k = None"
| "get (JBool b) k = None"
| "get (JArr xs) k = None"

text \<open>\<open>v?.k1?.k2 ...\<close>\<close>

fun get_path :: "jsval option \<Rightarrow> string list \<Rightarrow> jsval option" where
  "get_path v [] = v"
| "get_path v (k # ks) = (case v of None \<Rightarrow> None | Some x \<Rightarrow> get_path (get x k) ks)"

text \<open>\<open>a || b || ... || d\<close>: the first truthy operand, or the last one \<open>d\<close>.\<close>

fun first_truthy :: "jsval option list \<Rightarrow> jsval option" where
  "first_truthy [] = None"
| "first_truthy (v # vs) = (if truthy_opt v then v else first_truthy vs)"

definition or_else :: "jsval option list \<Rightarrow> jsval \<Rightarrow> jsval" where
  "or_else vs d = (case first_truthy vs of Some v \<Rightarrow> v | None \<Rightarrow> d)"

fun join_comma :: "string list \<Rightarrow> string" where
  "join_comma [] = []"
| "join_comma [s] = s"
| "join_comma (s # t # ss) = s @ '','' @ join_comma (t # ss)"

text \<open>\<open>v.toString()\<close>, also the property key that \<open>areas[v]\<close> reads.\<close>

fun to_string :: "jsval \<Rightarrow> string" where
  "to_string (JStr s) = s"
| "to_string (JNum n) = show_int n"
| "to_string (JBool b) = (if b then ''true'' else ''false'')"
| "to_string (JArr xs) = join_comma (map to_string xs)"
| "to_string (JObj kvs) = ''[object Object]''"

section \<open>Backup parser\<close>

record config =
  ipAddress :: string
  username :: string
  password :: string
  omit :: string
  range :: string

record area =
  area_VID :: jsval
  area_Name :: jsval

text \<open>
  The object \<open>areas\<close>, by key. (Keys that name a member of \<open>Object.prototype\<close>, such as
  \<open>constructor\<close>, are not modelled.)
\<close>

type_synonym areas = "(string \<times> area) list"

record device =
  VID :: string
  Name :: jsval
  ObjectType :: string
  LoadType :: jsval
  DeviceCategory :: jsval
  Area :: jsval

definition validTypes :: "string list" where
  "validTypes = [''Load'', ''Thermostat'', ''Blind'', ''RelayBlind'', ''QubeBlind'']"

definition omitList :: "config \<Rightarrow> string list" where
  "omitList cfg = (if omit cfg \<noteq> [] then map trim (split_on (CHR '','') (omit cfg)) else [])"

definition rangeList :: "config \<Rightarrow> int option list" where
  "rangeList cfg =
     (if range cfg \<noteq> [] then map (\<lambda>x. parseInt (trim x)) (split_on (CHR '','') (range cfg))
      else [Some 0, Some 999999999])"

text \<open>\<open>rangeList[i]\<close>: \<open>undefined\<close> compares as \<open>NaN\<close> does.\<close>

definition range_at :: "int option list \<Rightarrow> nat \<Rightarrow> int option" where
  "range_at rl i = (case nth_opt rl i of Some v \<Rightarrow> v | None \<Rightarrow> None)"

text \<open>\<open>a < b\<close> on numbers: false when either is \<open>NaN\<close>.\<close>

definition js_lt :: "int option \<Rightarrow> int option \<Rightarrow> bool" where
  "js_lt a b = (case a of None \<Rightarrow> False | Some x \<Rightarrow> (case b of None \<Rightarrow> False | Some y \<Rightarrow> x < y))"

text \<open>
  The test of both tiers (lines 454-455 and 557-558):
  \<open>omitList.includes(vid) || (!isNaN(numVid) && (numVid < rangeList[0] || numVid > rangeList[1]))\<close>
\<close>

definition skip_vid :: "config \<Rightarrow> string \<Rightarrow> bool" where
  "skip_vid cfg vid =
     (let numVid = parseInt vid in
      vid \<in> set (omitList cfg)
      \<or> (numVid \<noteq> None
          \<and> (js_lt numVid (range_at (rangeList cfg) 0) \<or> js_lt (range_at (rangeList cfg) 1) numVid)))"

text \<open>\<open>areas[areaId]?.Name || 'Main Area'\<close>\<close>

definition area_name :: "areas \<Rightarrow> string \<Rightarrow> jsval" where
  "area_name as key =
     (case map_of as key of
        None \<Rightarrow> JStr ''Main Area''
      | Some a \<Rightarrow> if truthy (area_Name a) then area_Name a else JStr ''Main Area'')"

definition default_area :: "areas \<Rightarrow> areas" where
  "default_area as =
     (if as = []
      then AList.update ''default_area'' \<lparr>area_VID = JStr ''default_area'', area_Name = JStr ''Main Area''\<rparr> as
      else as)"

subsection \<open>\<open>extractAreasDirectly\<close>\<close>

fun add_area_matches :: "(string \<times> string list) list \<Rightarrow> areas \<Rightarrow> areas" where
  "add_area_matches [] as = as"
| "add_area_matches ((m, gs) # ms) as =
     (case gs of
        [vid, name] \<Rightarrow>
          if vid \<noteq> [] \<and> map_of as vid = None
          then add_area_matches ms (AList.update vid \<lparr>area_VID = JStr vid, area_Name = JStr name\<rparr> as)
          else add_area_matches ms as
      | _ \<Rightarrow> add_area_matches ms as)"

definition extractAreasDirectly :: "string \<Rightarrow> areas \<Rightarrow> areas" where
  "extractAreasDirectly fileContent as =
     default_area (add_area_matches (exec_all areaRegex fileContent) as)"

subsection \<open>\<open>extractDevicesDirectly\<close>\<close>

text \<open>
  The \<open>vid\<close> of a match (lines 532-550): the attribute \<open>VID\<close> of the opening tag, else
  the element \<open>VID\<close>, else the element \<open>Number\<close> of the matched text; \<^term>\<open>None\<close> when the
  loop goes on to the next match.
\<close>

definition direct_vid :: "string \<Rightarrow> string \<Rightarrow> string option" where
  "direct_vid attributes m =
     (case group1 vidAttributeRegex attributes of
        Some v \<Rightarrow> Some v
      | None \<Rightarrow>
          (case group1 (elementRegex ''VID'') m of
             Some v \<Rightarrow> Some v
           | None \<Rightarrow> group1 (elementRegex ''Number'') m))"

text \<open>The \<open>areaId\<close> of a match (lines 563-570).\<close>

definition direct_area_ref :: "string \<Rightarrow> string" where
  "direct_area_ref m = (case group1 (elementRegex ''Area'') m of Some a \<Rightarrow> a | None \<Rightarrow> [])"

text \<open>The body of the \<open>while\<close> loop for one match of the device pattern of \<open>type\<close>.\<close>

definition direct_device :: "config \<Rightarrow> areas \<Rightarrow> string \<Rightarrow> string \<times> string list \<Rightarrow> device option" where
  "direct_device cfg as type mg =
     (case mg of
        (m, [attributes, name]) \<Rightarrow>
          (case direct_vid attributes m of
             None \<Rightarrow> None
           | Some vid \<Rightarrow>
               if name = [] then None
               else if skip_vid cfg vid then None
               else
                 Some \<lparr>VID = vid, Name = JStr name, ObjectType = type,
                       LoadType = JStr (case group1 (elementRegex ''LoadType'') m of Some t \<Rightarrow> t | None \<Rightarrow> []),
                       DeviceCategory =
                         JStr (case group1 (elementRegex ''DeviceCategory'') m of Some t \<Rightarrow> t | None \<Rightarrow> []),
                       Area = area_name as (direct_area_ref m)\<rparr>)
      | _ \<Rightarrow> None)"

definition extractDevicesDirectly :: "config \<Rightarrow> string \<Rightarrow> areas \<Rightarrow> device list \<Rightarrow> areas \<times> device list" where
  "extractDevicesDirectly cfg fileContent as devices =
     (let as1 = (if as = [] then extractAreasDirectly fileContent as else as) in
      (as1,
       devices @ concat (map (\<lambda>type. List.map_filter (direct_device cfg as1 type)
                                         (exec_all (deviceRegex type) fileContent))
                             validTypes)))"

subsection \<open>The structured pass of \<open>processBackupFile\<close>\<close>

text \<open>First pass, first loop: objects whose \<open>Area\<close> has the type tag \<open>Area\<close>.\<close>

definition area_pass1 :: "jsval \<Rightarrow> areas \<Rightarrow> areas" where
  "area_pass1 obj as =
     (case get obj ''Area'' of
        None \<Rightarrow> as
      | Some a \<Rightarrow>
          if truthy a \<and> get a ''ObjectType'' = Some (JStr ''Area'') then
            (case first_truthy [get a ''_VID'', get a ''VID''] of
               None \<Rightarrow> as
             | Some vid \<Rightarrow>
                 AList.update (to_string vid)
                   \<lparr>area_VID = vid, area_Name = or_else [get a ''Name'', get a ''DName''] (JStr ''Unknown'')\<rparr> as)
          else as)"

text \<open>First pass, second loop: an \<open>Area\<close> with a \<open>VID\<close> attribute and no type tag.\<close>

definition area_pass2 :: "jsval \<Rightarrow> areas \<Rightarrow> areas" where
  "area_pass2 obj as =
     (case get obj ''Area'' of
        None \<Rightarrow> as
      | Some a \<Rightarrow>
          if truthy a \<and> \<not> truthy_opt (get a ''ObjectType'') \<and> truthy_opt (get a ''_VID'') then
            (case get a ''_VID'' of
               None \<Rightarrow> as
             | Some vid \<Rightarrow>
                 if map_of as (to_string vid) = None
                 then AList.update (to_string vid)
                        \<lparr>area_VID = vid, area_Name = or_else [get a ''Name'', get a ''DName''] (JStr ''Unknown'')\<rparr> as
                 else as)
          else as)"

text \<open>First pass, third loop, run when no area was found.\<close>

definition area_pass3 :: "jsval \<Rightarrow> areas \<Rightarrow> areas" where
  "area_pass3 obj as =
     (let tagged = (get obj ''ObjectType'' = Some (JStr ''Area'')) in
      if tagged \<or> (truthy_opt (get obj ''Area'')
                    \<and> get_path (get obj ''Area'') [''ObjectType''] = Some (JStr ''Area'')) then
        (case (if tagged then Some obj else get obj ''Area'') of
           None \<Rightarrow> as
         | Some target \<Rightarrow>
             (case first_truthy [get target ''_VID'', get target ''VID''] of
                None \<Rightarrow> as
              | Some vid \<Rightarrow>
                  AList.update (to_string vid)
                    \<lparr>area_VID = vid,
                     area_Name = or_else [get target ''Name'', get target ''DName''] (JStr ''Unknown'')\<rparr> as))
      else as)"

text \<open>The first of \<open>validTypes\<close> for which \<open>obj[type]\<close> is truthy, with \<open>obj[type]\<close>.\<close>

definition device_type_of :: "jsval \<Rightarrow> (string \<times> jsval) option" where
  "device_type_of obj =
     (case List.find (\<lambda>t. truthy_opt (get obj t)) validTypes of
        None \<Rightarrow> None
      | Some t \<Rightarrow> (case get obj t of None \<Rightarrow> None | Some d \<Rightarrow> Some (t, d)))"

text \<open>The key \<open>areaId\<close> of a device: its \<open>Area\<close>, or the \<open>_VID\<close> or \<open>VID\<close> of its \<open>Area\<close>.\<close>

definition area_ref :: "jsval \<Rightarrow> string" where
  "area_ref deviceData =
     (case get deviceData ''Area'' of
        None \<Rightarrow> []
      | Some a \<Rightarrow>
          if truthy a then
            (case a of
               JStr s \<Rightarrow> s
             | JNum n \<Rightarrow> show_int n
             | _ \<Rightarrow> (case first_truthy [get a ''_VID'', get a ''VID''] of
                       None \<Rightarrow> []
                     | Some v \<Rightarrow> to_string v))
          else [])"

text \<open>The \<open>vid\<close> of a device (lines 440-447): the attribute, else the element.\<close>

definition structured_vid :: "jsval \<Rightarrow> string" where
  "structured_vid deviceData =
     (case first_truthy [get deviceData ''_VID'', get deviceData ''VID''] of
        None \<Rightarrow> []
      | Some v \<Rightarrow> to_string v)"

text \<open>Second pass: the body of the loop for one object.\<close>

definition structured_device :: "config \<Rightarrow> areas \<Rightarrow> jsval \<Rightarrow> device option" where
  "structured_device cfg as obj =
     (case device_type_of obj of
        None \<Rightarrow> None
      | Some (deviceType, deviceData) \<Rightarrow>
          if structured_vid deviceData = [] then None
          else if skip_vid cfg (structured_vid deviceData) then None
          else
            Some \<lparr>VID = structured_vid deviceData,
                  Name = or_else [get deviceData ''Name'', get deviceData ''DName'']
                           (JStr (''Unknown '' @ deviceType)),
                  ObjectType = deviceType,
                  LoadType = or_else [get deviceData ''LoadType''] (JStr []),
                  DeviceCategory = or_else [get deviceData ''DeviceCategory''] (JStr []),
                  Area = area_name as (area_ref deviceData)\<rparr>)"

definition structured_pass :: "config \<Rightarrow> jsval list \<Rightarrow> areas \<Rightarrow> device list \<Rightarrow> areas \<times> device list" where
  "structured_pass cfg objects as devices =
     (let as1 = fold area_pass1 objects as;
          as2 = fold area_pass2 objects as1;
          as3 = (if as2 = [] then fold area_pass3 objects as2 else as2);
          as4 = default_area as3
      in (as4, devices @ List.map_filter (structured_device cfg as4) objects))"

text \<open>
  \<open>result.Objects.Object\<close> as an array, when \<open>result.Objects\<close> and it are truthy.
\<close>

definition objects_of :: "jsval \<Rightarrow> jsval list option" where
  "objects_of result =
     (case get result ''Objects'' of
        None \<Rightarrow> None
      | Some os \<Rightarrow>
          if truthy os then
            (case get os ''Object'' of
               None \<Rightarrow> None
             | Some ob \<Rightarrow>
                 if truthy ob then (case ob of JArr xs \<Rightarrow> Some xs | _ \<Rightarrow> Some [ob]) else None)
          else None)"

subsection \<open>\<open>processBackupFile\<close>\<close>

text \<open>
  \<open>parse\<close> is \<open>XMLParser.parse\<close> with the options of the file: it gives a tree or throws.
  The result is the objects \<open>areas\<close> and \<open>devices\<close>, which the method updates in place.
  After the parse every property chain of the \<open>try\<close> block is guarded, so nothing else in
  it throws on a parser's tree and the outer \<open>catch\<close> has no branch here.
\<close>

definition processBackupFile ::
  "(string \<Rightarrow> error + jsval) \<Rightarrow> config \<Rightarrow> string \<Rightarrow> areas \<Rightarrow> device list \<Rightarrow> areas \<times> device list" where
  "processBackupFile parse cfg fileContent0 as0 devices =
     (let fileContent = filter (\<lambda>c. c \<noteq> CR \<and> c \<noteq> LF) fileContent0;
          as = extractAreasDirectly fileContent as0
      in case (case group1 (sectionRegex ''Objects'') fileContent of
                 Some inner \<Rightarrow> Some inner
               | None \<Rightarrow> group1 (sectionRegex ''Project'') fileContent) of
           None \<Rightarrow> (as, devices)
         | Some inner \<Rightarrow>
             (case parse (''<Objects>'' @ inner @ ''</Objects>'') of
                Inl e \<Rightarrow> extractDevicesDirectly cfg fileContent as devices
              | Inr result \<Rightarrow>
                  (case objects_of result of
                     None \<Rightarrow> extractDevicesDirectly cfg fileContent as devices
                   | Some objects \<Rightarrow> structured_pass cfg objects as devices)))"

text \<open>
  \<open>processDevice\<close>, which no method of the class calls. Its \<open>catch\<close> has no branch: the
  \<open>try\<close> block reads properties of \<open>device\<close> and of \<open>areas\<close> only.
\<close>

definition processDevice :: "jsval \<Rightarrow> areas \<Rightarrow> device" where
  "processDevice dev as =
     \<lparr>VID = (case first_truthy [get dev ''VID''] of Some v \<Rightarrow> to_string v | None \<Rightarrow> []),
      Name = or_else [first_truthy [get dev ''DName'', get dev ''Name'']]
               (JStr (''Unknown '' @ (case get dev ''ObjectType'' of Some t \<Rightarrow> to_string t
                                                                 | None \<Rightarrow> ''undefined''))),
      ObjectType = (case first_truthy [get dev ''ObjectType''] of Some v \<Rightarrow> to_string v | None \<Rightarrow> []),
      LoadType = or_else [get dev ''LoadType''] (JStr []),
      DeviceCategory = or_else [get dev ''DeviceCategory''] (JStr []),
      Area = (case first_truthy [get dev ''Area''] of
                None \<Rightarrow> JStr ''Main Area''
              | Some areaId \<Rightarrow>
                  (case map_of as (to_string areaId) of
                     Some a \<Rightarrow> area_Name a
                   | None \<Rightarrow> JStr (''Area '' @ to_string areaId)))\<rparr>"

section \<open>Discovery channel\<close>

text \<open>
  The events of the configuration socket and of the timer of \<open>discover\<close>: the 10 s timer
  fires, the connection is made, a chunk arrives, the socket reports an error, the
  socket is closed.
\<close>

datatype socket_event = Timeout | Connect | Data string | Error string | Close

text \<open>
  The variables of one call of \<open>discover\<close>, with what it has done so far: the strings
  written to the socket, the file contents saved, the payload of each
  \<open>discoveryComplete\<close> event emitted, and how often \<open>resolve\<close> was called.
\<close>

record discovery =
  timer_pending :: bool
  buffer :: string
  disc_areas :: areas
  disc_devices :: "device list"
  config_writes :: "string list"
  destroyed :: bool
  ended :: bool
  saved :: "string list"
  emitted :: "device list list"
  resolved :: nat

definition discover_start :: discovery where
  "discover_start =
     \<lparr>timer_pending = True, buffer = [], disc_areas = [], disc_devices = [], config_writes = [],
      destroyed = False, ended = False, saved = [], emitted = [], resolved = 0\<rparr>"

definition backup_request :: string where
  "backup_request = ''<IBackup><GetFile><call>Backup'' @ [CHR 0x5C] @ ''Project.dc</call></GetFile></IBackup>'' @ [LF]"

definition login_request :: "config \<Rightarrow> string" where
  "login_request cfg =
     ''<ILogin><Login><call><User>'' @ username cfg @ ''</User><Password>'' @ password cfg
       @ ''</Password></call></Login></ILogin>'' @ [LF]"

text \<open>\<open>s.replace(pat, rep)\<close> with a string pattern: the first occurrence.\<close>

fun replace_first :: "string \<Rightarrow> string \<Rightarrow> string \<Rightarrow> string" where
  "replace_first pat new [] = (if pat = [] then new else [])"
| "replace_first pat new (c # cs) =
     (if prefix pat (c # cs) then new @ drop (length pat) (c # cs)
      else c # replace_first pat new cs)"

definition on_timeout :: "discovery \<Rightarrow> discovery" where
  "on_timeout st =
     (if timer_pending st
      then st\<lparr>timer_pending := False, destroyed := True, emitted := emitted st @ [[]],
              resolved := resolved st + 1\<rparr>
      else st)"

definition on_connect :: "config \<Rightarrow> discovery \<Rightarrow> discovery" where
  "on_connect cfg st =
     st\<lparr>timer_pending := False,
        config_writes := config_writes st
          @ [if username cfg \<noteq> [] \<and> password cfg \<noteq> [] then login_request cfg else backup_request]\<rparr>"

text \<open>
  The \<open>data\<close> listener. \<open>parse\<close> is \<open>XMLParser.parse\<close>; \<open>b64\<close> is
  \<open>Buffer.from(v, 'base64').toString('utf8')\<close>; both may throw, into the \<open>catch\<close> that
  logs. (The byte order mark that the listener removes is not a character of these
  strings.)
\<close>

definition on_data ::
  "(string \<Rightarrow> error + jsval) \<Rightarrow> (jsval \<Rightarrow> error + string) \<Rightarrow> config \<Rightarrow> string \<Rightarrow> discovery \<Rightarrow> discovery" where
  "on_data parse b64 cfg chunk st =
     (let buf = buffer st @ chunk in
      if includes_str buf ''</IBackup>'' \<or> includes_str buf ''</ILogin>'' then
        (let buf2 = replace_first ''?>'' ''</File>''
                      (replace_first (''<?File Encode='' @ [CHR 0x22] @ ''Base64'' @ [CHR 0x22] @ '' /'') ''<File>'' buf)
         in case parse buf2 of
              Inl e \<Rightarrow> st\<lparr>buffer := buf2\<rparr>
            | Inr result \<Rightarrow>
                if truthy_opt (get_path (Some result) [''ILogin'', ''Login'', ''return'']) then
                  st\<lparr>buffer := [], config_writes := config_writes st @ [backup_request]\<rparr>
                else
                  (case first_truthy [get_path (Some result) [''IBackup'', ''GetFile'', ''return'', ''File'']] of
                     None \<Rightarrow> st\<lparr>buffer := buf2\<rparr>
                   | Some file \<Rightarrow>
                       (case b64 file of
                          Inl e \<Rightarrow> st\<lparr>buffer := buf2\<rparr>
                        | Inr fileContent \<Rightarrow>
                            (case processBackupFile parse cfg fileContent (disc_areas st) (disc_devices st) of
                               (as, ds) \<Rightarrow>
                                 st\<lparr>buffer := buf2, saved := saved st @ [fileContent],
                                    disc_areas := as, disc_devices := ds, ended := True\<rparr>))))
      else st\<lparr>buffer := buf\<rparr>)"

definition on_error :: "discovery \<Rightarrow> discovery" where
  "on_error st =
     st\<lparr>timer_pending := False, emitted := emitted st @ [[]], resolved := resolved st + 1\<rparr>"

definition on_close :: "discovery \<Rightarrow> discovery" where
  "on_close st =
     st\<lparr>timer_pending := False, emitted := emitted st @ [disc_devices st],
        resolved := resolved st + 1\<rparr>"

fun discover_step ::
  "(string \<Rightarrow> error + jsval) \<Rightarrow> (jsval \<Rightarrow> error + string) \<Rightarrow> config \<Rightarrow> socket_event \<Rightarrow> discovery \<Rightarrow> discovery" where
  "discover_step parse b64 cfg Timeout st = on_timeout st"
| "discover_step parse b64 cfg Connect st = on_connect cfg st"
| "discover_step parse b64 cfg (Data chunk) st = on_data parse b64 cfg chunk st"
| "discover_step parse b64 cfg (Error msg) st = on_error st"
| "discover_step parse b64 cfg Close st = on_close st"

text \<open>One call of \<open>discover\<close> under a sequence of events.\<close>

definition discover :: 
  "(string \<Rightarrow> error + jsval) \<Rightarrow> (jsval \<Rightarrow> error + string) \<Rightarrow> config \<Rightarrow> socket_event list \<Rightarrow> discovery" where
  "discover parse b64 cfg evs = fold (discover_step parse b64 cfg) evs discover_start"

section \<open>Example inputs\<close>

definition example_config :: config where
  "example_config =
     \<lparr>ipAddress = ''10.0.0.2'', username = [], password = [], omit = ''5, 7'', range = ''1,100''\<rparr>"

text \<open>
  A backup with the area \<open>10\<close> (\<open>Kitchen\<close>) and two loads, the tree a parser gives for it,
  a parser that throws, a backup whose \<open>Objects\<close> section is not closed, the objects of a
  structured pass, a text with two devices in the simple shape, and the response that
  carries a backup with the parser and the decoder for it.
\<close>

definition example_objects :: "jsval list" where
  "example_objects =
     [JObj [(''Load'', JObj [(''Name'', JStr ''Hall''), (''_VID'', JNum 5)])],
      JObj [(''Blind'', JObj [(''Name'', JStr ''Far''), (''_VID'', JNum 200)])],
      JObj [(''Load'', JObj [(''Name'', JStr ''Lamp''), (''Area'', JNum 10), (''_VID'', JNum 55)])]]"

definition example_devices_text :: string where
  "example_devices_text =
     ''<Load VID=\"7\"><Name>Hall</Name></Load><Load VID=\"55\"><Name>Lamp</Name><Area>10</Area></Load>''"

definition example_backup :: string where
  "example_backup =
     ''<Objects><Object><Load VID=\"55\"><Name>Lamp</Name></Load></Object></Objects>''"

definition example_envelope :: string where
  "example_envelope =
     ''<IBackup><GetFile><return><?File Encode=\"Base64\" /QQ==?></return></GetFile></IBackup>''"

definition example_parse :: "string \<Rightarrow> error + jsval" where
  "example_parse s =
     (if prefix ''<Objects>'' s
      then Inr (JObj [(''Objects'',
                  JObj [(''Object'', JArr [JObj [(''Load'', JObj [(''Name'', JStr ''Lamp''), (''_VID'', JNum 55)])]])])])
      else Inr (JObj [(''IBackup'', JObj [(''GetFile'', JObj [(''return'', JObj [(''File'', JStr ''QQ=='')])])])]))"

definition example_b64 :: "jsval \<Rightarrow> error + string" where
  "example_b64 v = (case v of JStr s \<Rightarrow> Inr example_backup | _ \<Rightarrow> Inl TypeError)"

definition kitchen_backup :: string where
  "kitchen_backup =
     ''<Objects><Object><Area VID=\"10\"><Name>Kitchen</Name></Area></Object><Object><Load VID=\"55\"><Name>Lamp</Name><Area>10</Area></Load></Object><Object><Load VID=\"56\"><Name>Spot</Name><Area>99</Area></Load></Object></Objects>''"

definition kitchen_parse :: "string \<Rightarrow> error + jsval" where
  "kitchen_parse s =
     Inr (JObj [(''Objects'',
            JObj [(''Object'',
               JArr [JObj [(''Area'', JObj [(''Name'', JStr ''Kitchen''), (''_VID'', JNum 10)])],
                     JObj [(''Load'', JObj [(''Name'', JStr ''Lamp''), (''Area'', JNum 10), (''_VID'', JNum 55)])],
                     JObj [(''Load'', JObj [(''Name'', JStr ''Spot''), (''Area'', JNum 99), (''_VID'', JNum 56)])]])])])"

definition failing_parse :: "string \<Rightarrow> error + jsval" where
  "failing_parse s = Inl ParseError"

definition truncated_backup :: string where
  "truncated_backup = ''<Objects><Object><Load VID=\"55\"><Name>Lamp</Name></Load></Object>''"

section \<open>Invariants of the backup parser\<close>

text \<open>The minimum counts of the captured repetitions of a regular expression, in order.\<close>

fun capture_mins :: "atom list \<Rightarrow> nat list" where
  "capture_mins [] = []"
| "capture_mins (Lit l # as) = capture_mins as"
| "capture_mins (Rep c g mn cap # as) = (if cap then mn # capture_mins as else capture_mins as)"

text \<open>Every area of the object has a truthy name.\<close>

definition named_areas :: "areas \<Rightarrow> bool" where
  "named_areas as = (\<forall>k a. map_of as k = Some a \<longrightarrow> truthy (area_Name a))"

section \<open>Properties of the command channel\<close>

subsection \<open>Line decoding across chunks\<close>









subsection \<open>Thermostat setpoint writes\<close>

text \<open>
  C6. \<open>setThermostatTemperature\<close> writes the line \<open>THERMTEMP <vid> HEAT <value>\<close> in mode 1
  (Heat) and \<open>THERMTEMP <vid> COOL <value>\<close> in mode 2 (Cool); in mode 3 (Auto) it writes
  the cool line when the value is above \<open>cooling\<close>, the heat line when it is not and the
  value is below \<open>heating\<close>, and nothing when the value lies between the two.
\<close>

theorem setThermostatTemperature_writes:
  fixes val heating cooling :: "'n::linorder"
  shows "(mode = 1 \<longrightarrow> setThermostatTemperature str vid val mode heating cooling
                        = [''THERMTEMP '' @ vid @ '' HEAT '' @ str val @ [LF]])
       \<and> (mode = 2 \<longrightarrow> setThermostatTemperature str vid val mode heating cooling
                        = [''THERMTEMP '' @ vid @ '' COOL '' @ str val @ [LF]])
       \<and> (mode = 3 \<and> cooling < val \<longrightarrow> setThermostatTemperature str vid val mode heating cooling
                        = [''THERMTEMP '' @ vid @ '' COOL '' @ str val @ [LF]])
       \<and> (mode = 3 \<and> val \<le> cooling \<and> val < heating \<longrightarrow> setThermostatTemperature str vid val mode heating cooling
                        = [''THERMTEMP '' @ vid @ '' HEAT '' @ str val @ [LF]])
       \<and> (mode = 3 \<and> heating \<le> val \<and> val \<le> cooling \<longrightarrow> setThermostatTemperature str vid val mode heating cooling = [])"
  by (auto simp: setThermostatTemperature_def)

theorem setThermostatTemperature_writes_witness:
  "setThermostatTemperature show_int ''7'' (70::int) 1 65 75 = [''THERMTEMP 7 HEAT 70'' @ [LF]]
   \<and> setThermostatTemperature show_int ''7'' (70::int) 2 65 75 = [''THERMTEMP 7 COOL 70'' @ [LF]]
   \<and> setThermostatTemperature show_int ''7'' (80::int) 3 65 75 = [''THERMTEMP 7 COOL 80'' @ [LF]]
   \<and> setThermostatTemperature show_int ''7'' (60::int) 3 65 75 = [''THERMTEMP 7 HEAT 60'' @ [LF]]
   \<and> setThermostatTemperature show_int ''7'' (72::int) 3 65 75 = []"
  using setThermostatTemperature_writes [where mode = 1 and str = show_int and vid = "''7''" and val = "70::int" and heating = 65 and cooling = 75]
        setThermostatTemperature_writes [where mode = 2 and str = show_int and vid = "''7''" and val = "70::int" and heating = 65 and cooling = 75]
        setThermostatTemperature_writes [where mode = 3 and str = show_int and vid = "''7''" and val = "80::int" and heating = 65 and cooling = 75]
        setThermostatTemperature_writes [where mode = 3 and str = show_int and vid = "''7''" and val = "60::int" and heating = 65 and cooling = 75]
        setThermostatTemperature_writes [where mode = 3 and str = show_int and vid = "''7''" and val = "72::int" and heating = 65 and cooling = 75]
  by (simp add: show_int_def)

subsection \<open>Dispatch of one line\<close>

lemma nth_opt_Cons_numeral [simp]: "nth_opt (x # xs) (numeral k) = nth_opt xs (pred_numeral k)"
  by (simp add: numeral_eq_Suc)

lemma nth_opt_Cons_1 [simp]: "nth_opt (x # xs) 1 = nth_opt xs 0"
  by simp



text \<open>The only lines on which the dispatcher throws: a thermostat verb with no mode token.\<close>

lemma processCommandResponse_throws_iff:
  "(\<exists>e. processCommandResponse parts = Inl e) \<longleftrightarrow>
     (nth_opt parts 0 \<in> {Some ''S:THERMOP'', Some ''R:GETTHERMOP'', Some ''R:THERMTEMP''}
      \<and> nth_opt (drop 1 parts) 1 = None)"
  by (auto simp: processCommandResponse_def Let_def split: option.splits)

text \<open>
  C2 fails on the code: for the chunk of the two lines \<open>S:THERMOP 7\<close> and \<open>S:LOAD 12 75\<close>
  the first line throws a \<open>TypeError\<close> (\<open>args[1]\<close> is \<open>undefined\<close>) out of
  \<open>handleCommandData\<close>, and the event of the second line, which the line gives on its
  own, is never emitted.
\<close>

theorem missing_mode_token_throws:
  "handleCommandData (''S:THERMOP 7'' @ [LF] @ ''S:LOAD 12 75'' @ [LF]) = ([], Some TypeError)
   \<and> handleCommandData (''S:LOAD 12 75'' @ [LF]) = ([LoadStatusChange (Some ''12'') (Some 75)], None)"
  by (simp add: handleCommandData_def processCommandResponse_def parseInt_arg_def parseInt_def
        is_space_def digit_of_def digits_val_def)

subsection \<open>Reconnection\<close>

lemma emit_close_listeners:
  "close_listeners s = Disconnected # replicate n Reconnect \<Longrightarrow>
   close_listeners (emit_close s) = Disconnected # replicate (Suc n) Reconnect
   \<and> timers (emit_close s) = timers s @ replicate n 5000"
proof -
  have r: "(run_close_listener Reconnect ^^ n) t
           = t\<lparr>timers := timers t @ replicate n 5000\<rparr>" for t
    by (induction n arbitrary: t) (simp_all add: replicate_append_same)
  assume "close_listeners s = Disconnected # replicate n Reconnect"
  then show ?thesis
    by (simp add: emit_close_def r setupReconnection_def replicate_append_same)
qed

lemma closes_listeners:
  "close_listeners ((emit_close ^^ n) setupCommandSocket) = Disconnected # replicate n Reconnect"
proof (induction n)
  case 0
  show ?case by (simp add: setupCommandSocket_def)
next
  case (Suc n)
  from emit_close_listeners [OF Suc] show ?case by simp
qed

lemma nth_close_schedules:
  "timers (emit_close ((emit_close ^^ n) setupCommandSocket))
     = timers ((emit_close ^^ n) setupCommandSocket) @ replicate n 5000"
  using emit_close_listeners [OF closes_listeners [of n]] by simp

text \<open>
  C3 fails on the code: the first \<open>close\<close> starts no timer (it registers the listener that
  will), and the third \<open>close\<close> starts two timers at once, even when the timer of the
  second has fired before.
\<close>

theorem first_close_schedules_no_reconnect:
  "timers (emit_close setupCommandSocket) = []
   \<and> timers (emit_close (timer_fired (emit_close (emit_close setupCommandSocket)))) = [5000, 5000]"
  by (simp add: emit_close_def setupCommandSocket_def setupReconnection_def timer_fired_def)

subsection \<open>Discovery events\<close>

lemma on_data_emitted: "emitted (on_data parse b64 cfg chunk st) = emitted st"
  by (simp add: on_data_def Let_def split: sum.splits option.splits prod.splits)

lemma data_events_emitted:
  "emitted (fold (discover_step parse b64 cfg) (map Data chunks) st) = emitted st"
  by (induction chunks arbitrary: st) (simp_all add: on_data_emitted)

lemma discover_success_emits_once:
  "length (emitted (discover parse b64 cfg (Connect # map Data chunks @ [Close]))) = 1"
  by (simp add: discover_def data_events_emitted on_close_def on_connect_def discover_start_def)

text \<open>
  C4 fails on the code: the \<open>error\<close> listener and the timer's callback each emit
  \<open>discoveryComplete\<close> with an empty list, and the \<open>close\<close> event that follows the error or
  the \<open>destroy\<close> emits it once more.
\<close>

theorem discover_emits_twice:
  "emitted (discover parse b64 cfg [Error msg, Close]) = [[], []]
   \<and> emitted (discover parse b64 cfg [Timeout, Close]) = [[], []]"
  by (simp add: discover_def discover_start_def on_error_def on_close_def on_timeout_def)

section \<open>Properties of the backup parser and of discovery\<close>

subsection \<open>Matches of the regular expressions\<close>

text \<open>A match ends inside its input, and after its start when it begins with a literal.\<close>

lemma re_match_rest:
  "re_match as s = Some (gs, r) \<Longrightarrow> length r \<le> length s"
  "re_repeat c g mn cap as acc s = Some (gs, r) \<Longrightarrow> length r \<le> length s"
proof (induction as s and c g mn cap as acc s arbitrary: gs r and gs r rule: re_match_re_repeat.induct)
  case (1 s)
  then show ?case by simp
next
  case (2 l as s)
  then have "prefix l s" "re_match as (drop (length l) s) = Some (gs, r)"
    by (simp_all split: if_splits)
  with "2.IH" [of gs r] show ?case by simp
next
  case (3 c g mn cap as s)
  then show ?case by simp
next
  case (4 c mn cap as acc s)
  show ?case
  proof (cases "case s of x # xs \<Rightarrow> if cls_ok c x then re_repeat c True mn cap as (x # acc) xs else None
                        | [] \<Rightarrow> None")
    case (Some res)
    with "4.prems" have res: "res = (gs, r)" by simp
    from Some obtain x xs where s: "s = x # xs" "cls_ok c x"
      "re_repeat c True mn cap as (x # acc) xs = Some res"
      by (auto split: list.splits if_splits)
    from "4.IH"(1) [OF s(1) s(2)] s res show ?thesis by fastforce
  next
    case None
    with "4.prems" obtain gs' where h: "mn \<le> length acc" "re_match as s = Some (gs', r)"
      by (auto split: if_splits option.splits)
    from "4.IH"(2) [OF None h(1) h(2)] show ?thesis .
  qed
next
  case (5 c mn cap as acc s)
  show ?case
  proof (cases "if mn \<le> length acc
            then (case re_match as s of Some (gs, r) \<Rightarrow> Some (if cap then rev acc # gs else gs, r)
                                | None \<Rightarrow> None)
            else None")
    case (Some res)
    with "5.prems" have res: "res = (gs, r)" by simp
    from Some res obtain gs' where h: "mn \<le> length acc" "re_match as s = Some (gs', r)"
      by (auto split: if_splits option.splits)
    from "5.IH"(1) [OF h(1) h(2)] show ?thesis .
  next
    case None
    with "5.prems" obtain x xs where s: "s = x # xs" "cls_ok c x"
      "re_repeat c False mn cap as (x # acc) xs = Some (gs, r)"
      by (auto split: list.splits if_splits)
    from "5.IH"(2) [OF None s(1) s(2) s(3)] s show ?thesis by simp
  qed
qed

lemma re_search_literal_start:
  "re_search (Lit (c # l) # as) s = Some (m, gs, r) \<Longrightarrow> length r < length s"
proof (induction s)
  case Nil
  then show ?case by simp
next
  case (Cons x xs)
  show ?case
  proof (cases "re_match (Lit (c # l) # as) (x # xs)")
    case None
    with Cons show ?thesis by fastforce
  next
    case (Some res)
    obtain gs' r' where res: "res = (gs', r')" by (cases res)
    with Some Cons.prems have r: "r' = r" by simp
    from Some res have "re_match as (drop (length (c # l)) (x # xs)) = Some (gs', r')"
      by (simp split: if_splits)
    from re_match_rest(1) [OF this] r show ?thesis by simp
  qed
qed

text \<open>So the loop over the matches is never cut for the regular expressions of the file.\<close>

lemma exec_all_literal_start:
  "exec_all (Lit (c # l) # as) s =
     (case re_search (Lit (c # l) # as) s of
        None \<Rightarrow> []
      | Some (m, gs, r) \<Rightarrow> (m, gs) # exec_all (Lit (c # l) # as) r)"
  by (subst exec_all.simps) (auto split: option.splits dest: re_search_literal_start)

subsection \<open>The filter test\<close>

lemma omitList_range_update [simp]: "omitList (cfg\<lparr>range := r\<rparr>) = omitList cfg"
  by (simp add: omitList_def)

text \<open>
  C10. For a VID that \<open>parseInt\<close> does not parse, the test of both tiers is the membership
  in the omit list (the entries between the commas, trimmed), whatever range \<open>r\<close> is
  configured: in the structured tier and in the direct tier the device is skipped
  exactly when its VID equals an entry of the list.
\<close>

theorem range_filter_needs_integer_vid:
  assumes "parseInt vid = None"
  shows "skip_vid (cfg\<lparr>range := r\<rparr>) vid = (vid \<in> set (omitList cfg))
       \<and> (device_type_of obj = Some (t, dd) \<and> structured_vid dd = vid \<and> vid \<noteq> [] \<longrightarrow>
            (structured_device (cfg\<lparr>range := r\<rparr>) as obj = None) = (vid \<in> set (omitList cfg)))
       \<and> (direct_vid attributes m = Some vid \<and> name \<noteq> [] \<longrightarrow>
            (direct_device (cfg\<lparr>range := r\<rparr>) as type (m, [attributes, name]) = None) = (vid \<in> set (omitList cfg)))"
  using assms by (auto simp: skip_vid_def structured_device_def direct_device_def)

theorem range_filter_needs_integer_vid_witness:
  "parseInt ''A200'' = None
   \<and> skip_vid (example_config\<lparr>range := ''1,100''\<rparr>) ''A200'' = False
   \<and> skip_vid (example_config\<lparr>omit := ''5,A200'', range := ''1,100''\<rparr>) ''A200'' = True"
  using range_filter_needs_integer_vid [where vid = "''A200''" and cfg = example_config and r = "''1,100''"]
        range_filter_needs_integer_vid [where vid = "''A200''" and cfg = "example_config\<lparr>omit := ''5,A200''\<rparr>" and r = "''1,100''"]
  by (simp add: parseInt_def is_space_def digit_of_def omitList_def example_config_def trim_def)

subsection \<open>The filters on every path of the backup parser\<close>

lemma not_skip_vid:
  assumes "\<not> skip_vid cfg vid"
  shows "vid \<notin> set (omitList cfg)
       \<and> (\<forall>n lo hi. parseInt vid = Some n \<longrightarrow>
             (range_at (rangeList cfg) 0 = Some lo \<longrightarrow> lo \<le> n)
           \<and> (range_at (rangeList cfg) 1 = Some hi \<longrightarrow> n \<le> hi))"
  using assms by (auto simp: skip_vid_def js_lt_def)

lemma set_map_filter: "set (List.map_filter f xs) = {y. \<exists>x \<in> set xs. f x = Some y}"
  by (induction xs) (auto split: option.splits)

lemma structured_device_not_skipped:
  "structured_device cfg as obj = Some d \<Longrightarrow> \<not> skip_vid cfg (VID d)"
  by (auto simp: structured_device_def split: option.splits if_splits)


lemma direct_device_Some:
  assumes "direct_device cfg as type mg = Some d"
  shows "\<exists>m attributes name vid. mg = (m, [attributes, name]) \<and> direct_vid attributes m = Some vid
           \<and> \<not> skip_vid cfg vid \<and> VID d = vid \<and> Area d = area_name as (direct_area_ref m)"
proof -
  obtain m gs where mg: "mg = (m, gs)" by (cases mg)
  show ?thesis
  proof (cases gs)
    case Nil
    with assms mg show ?thesis by (simp add: direct_device_def)
  next
    case (Cons attributes gs1)
    note c1 = this
    show ?thesis
    proof (cases gs1)
      case Nil
      with assms mg c1 show ?thesis by (simp add: direct_device_def)
    next
      case (Cons name gs2)
      note c2 = this
      show ?thesis
      proof (cases gs2)
        case Nil
        with assms mg c1 c2 show ?thesis
          by (cases "direct_vid attributes m") (auto simp: direct_device_def split: if_splits)
      next
        case (Cons g gs3)
        with assms mg c1 c2 show ?thesis by (simp add: direct_device_def)
      qed
    qed
  qed
qed

lemma direct_device_not_skipped:
  "direct_device cfg as type mg = Some d \<Longrightarrow> \<not> skip_vid cfg (VID d)"
  using direct_device_Some by blast


lemma structured_pass_snd:
  "snd (structured_pass cfg objects as devices)
     = devices @ List.map_filter (structured_device cfg (fst (structured_pass cfg objects as devices))) objects"
  by (simp add: structured_pass_def Let_def)

lemma structured_pass_devices:
  assumes "d \<in> set (snd (structured_pass cfg objects as devices))"
  shows "d \<in> set devices \<or> \<not> skip_vid cfg (VID d)"
proof -
  define as4 where "as4 = fst (structured_pass cfg objects as devices)"
  with structured_pass_snd [of cfg objects as devices] assms have "d \<in> set devices \<or> d \<in> set (List.map_filter (structured_device cfg as4) objects)"
    by simp
  then show ?thesis
  proof
    assume "d \<in> set devices"
    then show ?thesis ..
  next
    assume "d \<in> set (List.map_filter (structured_device cfg as4) objects)"
    then obtain obj where "structured_device cfg as4 obj = Some d"
      unfolding set_map_filter by blast
    then show ?thesis by (simp add: structured_device_not_skipped)
  qed
qed

lemma extractDevicesDirectly_snd:
  "snd (extractDevicesDirectly cfg fileContent as devices)
     = devices @ concat (map (\<lambda>type. List.map_filter
                                        (direct_device cfg (fst (extractDevicesDirectly cfg fileContent as devices)) type)
                                        (exec_all (deviceRegex type) fileContent))
                           validTypes)"
  by (simp add: extractDevicesDirectly_def Let_def)

lemma extractDevicesDirectly_devices:
  assumes "d \<in> set (snd (extractDevicesDirectly cfg fileContent as devices))"
  shows "d \<in> set devices \<or> \<not> skip_vid cfg (VID d)"
proof -
  define as1 where "as1 = fst (extractDevicesDirectly cfg fileContent as devices)"
  with extractDevicesDirectly_snd [of cfg fileContent as devices] assms have "d \<in> set devices
     \<or> (\<exists>type. d \<in> set (List.map_filter (direct_device cfg as1 type)
                          (exec_all (deviceRegex type) fileContent)))"
    by auto
  then show ?thesis
  proof
    assume "d \<in> set devices"
    then show ?thesis ..
  next
    assume "\<exists>type. d \<in> set (List.map_filter (direct_device cfg as1 type)
                          (exec_all (deviceRegex type) fileContent))"
    then obtain type mg where "direct_device cfg as1 type mg = Some d"
      unfolding set_map_filter by blast
    then show ?thesis by (simp add: direct_device_not_skipped)
  qed
qed

text \<open>The branches of \<open>processBackupFile\<close>.\<close>

lemma processBackupFile_unfold:
  "processBackupFile parse cfg fileContent0 as0 devices =
     (case (case group1 (sectionRegex ''Objects'') (filter (\<lambda>c. c \<noteq> CR \<and> c \<noteq> LF) fileContent0) of
              Some inner \<Rightarrow> Some inner
            | None \<Rightarrow> group1 (sectionRegex ''Project'') (filter (\<lambda>c. c \<noteq> CR \<and> c \<noteq> LF) fileContent0)) of
        None \<Rightarrow> (extractAreasDirectly (filter (\<lambda>c. c \<noteq> CR \<and> c \<noteq> LF) fileContent0) as0, devices)
      | Some inner \<Rightarrow>
          (case parse (''<Objects>'' @ inner @ ''</Objects>'') of
             Inl e \<Rightarrow> extractDevicesDirectly cfg (filter (\<lambda>c. c \<noteq> CR \<and> c \<noteq> LF) fileContent0)
                        (extractAreasDirectly (filter (\<lambda>c. c \<noteq> CR \<and> c \<noteq> LF) fileContent0) as0) devices
           | Inr result \<Rightarrow>
               (case objects_of result of
                  None \<Rightarrow> extractDevicesDirectly cfg (filter (\<lambda>c. c \<noteq> CR \<and> c \<noteq> LF) fileContent0)
                             (extractAreasDirectly (filter (\<lambda>c. c \<noteq> CR \<and> c \<noteq> LF) fileContent0) as0) devices
                | Some objects \<Rightarrow>
                    structured_pass cfg objects
                      (extractAreasDirectly (filter (\<lambda>c. c \<noteq> CR \<and> c \<noteq> LF) fileContent0) as0) devices)))"
  unfolding processBackupFile_def Let_def ..

lemma processBackupFile_devices:
  assumes "d \<in> set (snd (processBackupFile parse cfg fileContent as devices))"
  shows "d \<in> set devices \<or> \<not> skip_vid cfg (VID d)"
proof -
  let ?fc = "filter (\<lambda>c. c \<noteq> CR \<and> c \<noteq> LF) fileContent"
  let ?sec = "case group1 (sectionRegex ''Objects'') ?fc of
                Some inner \<Rightarrow> Some inner
              | None \<Rightarrow> group1 (sectionRegex ''Project'') ?fc"
  note unf = processBackupFile_unfold [of parse cfg fileContent as devices]
  show ?thesis
  proof (cases ?sec)
    case None
    with assms unf show ?thesis by simp
  next
    case (Some inner)
    note sec = this
    show ?thesis
    proof (cases "parse (''<Objects>'' @ inner @ ''</Objects>'')")
      case (Inl e)
      with assms unf sec
      have "d \<in> set (snd (extractDevicesDirectly cfg ?fc (extractAreasDirectly ?fc as) devices))"
        by simp
      then show ?thesis by (rule extractDevicesDirectly_devices)
    next
      case (Inr result)
      note res = this
      show ?thesis
      proof (cases "objects_of result")
        case None
        with assms unf sec res
        have "d \<in> set (snd (extractDevicesDirectly cfg ?fc (extractAreasDirectly ?fc as) devices))"
          by simp
        then show ?thesis by (rule extractDevicesDirectly_devices)
      next
        case (Some objects)
        with assms unf sec res
        have "d \<in> set (snd (structured_pass cfg objects (extractAreasDirectly ?fc as) devices))"
          by simp
        then show ?thesis by (rule structured_pass_devices)
      qed
    qed
  qed
qed

lemma on_data_disc_devices:
  "disc_devices (on_data parse b64 cfg chunk st) = disc_devices st
   \<or> (\<exists>fileContent. disc_devices (on_data parse b64 cfg chunk st)
         = snd (processBackupFile parse cfg fileContent (disc_areas st) (disc_devices st)))"
proof -
  have "disc_devices (case processBackupFile parse cfg fc (disc_areas st) (disc_devices st) of
                        (as, ds) \<Rightarrow> st\<lparr>buffer := b, saved := sv, disc_areas := as, disc_devices := ds,
                                        ended := True\<rparr>)
        = snd (processBackupFile parse cfg fc (disc_areas st) (disc_devices st))" for fc b sv
    by (simp split: prod.splits)
  then show ?thesis
    unfolding on_data_def Let_def
    by (simp split: option.splits sum.splits) blast
qed

lemma on_data_devices:
  assumes "\<forall>d \<in> set (disc_devices st). \<not> skip_vid cfg (VID d)"
  shows "\<forall>d \<in> set (disc_devices (on_data parse b64 cfg chunk st)). \<not> skip_vid cfg (VID d)"
proof
  fix d
  assume d: "d \<in> set (disc_devices (on_data parse b64 cfg chunk st))"
  from on_data_disc_devices [of parse b64 cfg chunk st]
  show "\<not> skip_vid cfg (VID d)"
  proof
    assume "disc_devices (on_data parse b64 cfg chunk st) = disc_devices st"
    with d assms show ?thesis by simp
  next
    assume "\<exists>fileContent. disc_devices (on_data parse b64 cfg chunk st)
         = snd (processBackupFile parse cfg fileContent (disc_areas st) (disc_devices st))"
    then obtain fileContent where "disc_devices (on_data parse b64 cfg chunk st)
         = snd (processBackupFile parse cfg fileContent (disc_areas st) (disc_devices st))" ..
    with d have "d \<in> set (snd (processBackupFile parse cfg fileContent (disc_areas st) (disc_devices st)))"
      by simp
    from processBackupFile_devices [OF this] assms show ?thesis by blast
  qed
qed

subsection \<open>The filters in the discovery result\<close>

lemma discover_step_devices:
  assumes "\<forall>d \<in> set (disc_devices st). \<not> skip_vid cfg (VID d)"
  shows "\<forall>d \<in> set (disc_devices (discover_step parse b64 cfg ev st)). \<not> skip_vid cfg (VID d)"
proof (cases ev)
  case (Data chunk)
  with on_data_devices [OF assms] show ?thesis by simp
qed (use assms in \<open>simp_all add: on_timeout_def on_connect_def on_error_def on_close_def\<close>)

lemma discover_step_emitted:
  assumes "\<forall>d \<in> set (disc_devices st). \<not> skip_vid cfg (VID d)"
      and "\<forall>p \<in> set (emitted st). \<forall>d \<in> set p. \<not> skip_vid cfg (VID d)"
  shows "\<forall>p \<in> set (emitted (discover_step parse b64 cfg ev st)). \<forall>d \<in> set p. \<not> skip_vid cfg (VID d)"
proof (cases ev)
  case (Data chunk)
  with assms(2) show ?thesis by (simp add: on_data_emitted)
qed (use assms in \<open>auto simp: on_timeout_def on_connect_def on_error_def on_close_def\<close>)

lemma discover_fold_filtered:
  assumes "\<forall>d \<in> set (disc_devices st). \<not> skip_vid cfg (VID d)"
      and "\<forall>p \<in> set (emitted st). \<forall>d \<in> set p. \<not> skip_vid cfg (VID d)"
  shows "\<forall>p \<in> set (emitted (fold (discover_step parse b64 cfg) evs st)).
           \<forall>d \<in> set p. \<not> skip_vid cfg (VID d)"
  using assms
proof (induction evs arbitrary: st)
  case Nil
  then show ?case by simp
next
  case (Cons ev evs)
  from Cons.IH [OF discover_step_devices [OF Cons.prems(1)] discover_step_emitted [OF Cons.prems]]
  show ?case by simp
qed

lemma discover_filtered:
  assumes "payload \<in> set (emitted (discover parse b64 cfg evs))" and "d \<in> set payload"
  shows "\<not> skip_vid cfg (VID d)"
  using discover_fold_filtered [of discover_start cfg parse b64 evs] assms
  by (simp add: discover_def discover_start_def)

text \<open>
  C8. A device in the result of the structured pass, of the direct extraction or of a
  discovery run (in any \<open>discoveryComplete\<close> event, for any parser, decoder and sequence
  of events) has a VID that is not in the omit list and that, when \<open>parseInt\<close> parses
  it, is not below the first entry of the range nor above the second.
\<close>

theorem omitted_or_out_of_range_never_discovered:
  assumes "d \<in> set (snd (structured_pass cfg objects as []))
         \<or> d \<in> set (snd (extractDevicesDirectly cfg fileContent as []))
         \<or> (\<exists>payload \<in> set (emitted (discover parse b64 cfg evs)). d \<in> set payload)"
  shows "VID d \<notin> set (omitList cfg)
       \<and> (\<forall>n lo hi. parseInt (VID d) = Some n \<longrightarrow>
             (range_at (rangeList cfg) 0 = Some lo \<longrightarrow> lo \<le> n)
           \<and> (range_at (rangeList cfg) 1 = Some hi \<longrightarrow> n \<le> hi))"
proof -
  from assms have "\<not> skip_vid cfg (VID d)"
    using structured_pass_devices [of d cfg objects as "[]"]
          extractDevicesDirectly_devices [of d cfg fileContent as "[]"]
          discover_filtered [of _ parse b64 cfg evs d]
    by auto
  then show ?thesis by (rule not_skip_vid)
qed


theorem omitted_or_out_of_range_never_discovered_witness:
  "snd (structured_pass example_config example_objects [] [])
     = [\<lparr>VID = ''55'', Name = JStr ''Lamp'', ObjectType = ''Load'', LoadType = JStr [],
         DeviceCategory = JStr [], Area = JStr ''Main Area''\<rparr>]
   \<and> snd (extractDevicesDirectly example_config example_devices_text [] [])
     = [\<lparr>VID = ''55'', Name = JStr ''Lamp'', ObjectType = ''Load'', LoadType = JStr [],
         DeviceCategory = JStr [], Area = JStr ''Main Area''\<rparr>]
   \<and> emitted (discover example_parse example_b64 example_config [Connect, Data example_envelope, Close])
     = [[\<lparr>VID = ''55'', Name = JStr ''Lamp'', ObjectType = ''Load'', LoadType = JStr [],
          DeviceCategory = JStr [], Area = JStr ''Main Area''\<rparr>]]
   \<and> omitList example_config = [''5'', ''7'']
   \<and> rangeList example_config = [Some 1, Some 100]
   \<and> parseInt ''55'' = Some 55"
proof -
  let ?d = "\<lparr>VID = ''55'', Name = JStr ''Lamp'', ObjectType = ''Load'', LoadType = JStr [],
             DeviceCategory = JStr [], Area = JStr ''Main Area''\<rparr>"
  have e1: "snd (structured_pass example_config example_objects [] []) = [?d]"
    by code_simp
  have e2: "snd (extractDevicesDirectly example_config example_devices_text [] []) = [?d]"
    by code_simp
  have e3: "emitted (discover example_parse example_b64 example_config [Connect, Data example_envelope, Close])
              = [[?d]]"
    by code_simp
  have e4: "omitList example_config = [''5'', ''7''] \<and> rangeList example_config = [Some 1, Some 100]
            \<and> parseInt ''55'' = Some 55"
    by code_simp
  from e1 e2 e3 e4
    omitted_or_out_of_range_never_discovered [where d = ?d and cfg = example_config
      and objects = example_objects and as = "[]" and fileContent = example_devices_text
      and parse = example_parse and ?b64.0 = example_b64
      and evs = "[Connect, Data example_envelope, Close]"]
  show ?thesis by simp
qed

subsection \<open>Area names of devices\<close>

lemma structured_device_Some:
  assumes "structured_device cfg as obj = Some d"
  shows "\<exists>t dd. device_type_of obj = Some (t, dd) \<and> VID d = structured_vid dd
           \<and> Area d = area_name as (area_ref dd)"
proof (cases "device_type_of obj")
  case None
  with assms show ?thesis by (simp add: structured_device_def)
next
  case (Some td)
  obtain t dd where "td = (t, dd)" by (cases td)
  with assms Some show ?thesis
    by (auto simp: structured_device_def split: if_splits)
qed

text \<open>
  C5, as the code has it. In both tiers the area of an extracted device is the name of
  the collected area that its reference names, and \<open>Main Area\<close> when the reference names
  none, whether it is empty or not. The hypothesis, that the collected areas have truthy
  names, holds for the areas of every run of \<open>processBackupFile\<close> that starts from such
  areas, as \<open>discover\<close> does with none (\<open>named_areas_processBackupFile\<close> below).
\<close>

theorem device_area_resolution:
  assumes "\<forall>k a. map_of as k = Some a \<longrightarrow> truthy (area_Name a)"
  shows "(device_type_of obj = Some (t, dd) \<and> structured_device cfg as obj = Some d \<longrightarrow>
            Area d = (case map_of as (area_ref dd) of
                        Some a \<Rightarrow> area_Name a
                      | None \<Rightarrow> JStr ''Main Area''))
       \<and> (direct_device cfg as type (m, gs) = Some d' \<longrightarrow>
            Area d' = (case map_of as (direct_area_ref m) of
                         Some a \<Rightarrow> area_Name a
                       | None \<Rightarrow> JStr ''Main Area''))"
proof -
  have n: "area_name as k = (case map_of as k of Some a \<Rightarrow> area_Name a | None \<Rightarrow> JStr ''Main Area'')"
    for k
    using assms by (simp add: area_name_def split: option.splits)
  show ?thesis
    using structured_device_Some [of cfg as obj d] direct_device_Some [of cfg as type "(m, gs)" d']
    by (auto simp: n)
qed

theorem device_area_resolution_witness:
  "structured_device example_config
       [(''10'', \<lparr>area_VID = JStr ''10'', area_Name = JStr ''Kitchen''\<rparr>)]
       (JObj [(''Load'', JObj [(''Name'', JStr ''Lamp''), (''Area'', JNum 10), (''_VID'', JNum 55)])])
     = Some \<lparr>VID = ''55'', Name = JStr ''Lamp'', ObjectType = ''Load'', LoadType = JStr [],
              DeviceCategory = JStr [], Area = JStr ''Kitchen''\<rparr>
   \<and> direct_device example_config
       [(''10'', \<lparr>area_VID = JStr ''10'', area_Name = JStr ''Kitchen''\<rparr>)] ''Load''
       (''<Load VID=\"56\"><Name>Spot</Name><Area>99</Area></Load>'', ['' VID=\"56\"'', ''Spot''])
     = Some \<lparr>VID = ''56'', Name = JStr ''Spot'', ObjectType = ''Load'', LoadType = JStr [],
              DeviceCategory = JStr [], Area = JStr ''Main Area''\<rparr>"
proof -
  let ?as = "[(''10'', \<lparr>area_VID = JStr ''10'', area_Name = JStr ''Kitchen''\<rparr>)]"
  let ?obj = "JObj [(''Load'', JObj [(''Name'', JStr ''Lamp''), (''Area'', JNum 10), (''_VID'', JNum 55)])]"
  let ?m = "''<Load VID=\"56\"><Name>Spot</Name><Area>99</Area></Load>''"
  have a: "\<forall>k a. map_of ?as k = Some a \<longrightarrow> truthy (area_Name a)"
    by simp
  have t: "device_type_of ?obj
             = Some (''Load'', JObj [(''Name'', JStr ''Lamp''), (''Area'', JNum 10), (''_VID'', JNum 55)])"
    by code_simp
  have s: "structured_device example_config ?as ?obj
             = Some \<lparr>VID = ''55'', Name = JStr ''Lamp'', ObjectType = ''Load'', LoadType = JStr [],
                      DeviceCategory = JStr [], Area = JStr ''Kitchen''\<rparr>"
    by code_simp
  have d: "direct_device example_config ?as ''Load'' (?m, ['' VID=\"56\"'', ''Spot''])
             = Some \<lparr>VID = ''56'', Name = JStr ''Spot'', ObjectType = ''Load'', LoadType = JStr [],
                      DeviceCategory = JStr [], Area = JStr ''Main Area''\<rparr>"
    by code_simp
  from device_area_resolution [OF a, where obj = ?obj and cfg = example_config
         and t = "''Load''" and dd = "JObj [(''Name'', JStr ''Lamp''), (''Area'', JNum 10), (''_VID'', JNum 55)]"
         and type = "''Load''" and m = ?m and gs = "['' VID=\"56\"'', ''Spot'']"]
       t s d
  show ?thesis by simp
qed


text \<open>
  C5 as stated fails in both tiers: with the area \<open>10\<close> (\<open>Kitchen\<close>) collected, the device
  \<open>56\<close>, whose reference \<open>99\<close> names no area, gets the area \<open>Main Area\<close>, not \<open>Area 99\<close>;
  the device \<open>55\<close> with the reference \<open>10\<close> gets \<open>Kitchen\<close>.
\<close>

theorem unresolved_area_counterexample:
  "map Area (snd (processBackupFile failing_parse example_config kitchen_backup [] []))
     = [JStr ''Kitchen'', JStr ''Main Area'']
   \<and> map Area (snd (processBackupFile kitchen_parse example_config kitchen_backup [] []))
     = [JStr ''Kitchen'', JStr ''Main Area'']
   \<and> JStr ''Main Area'' \<noteq> JStr ''Area 99''"
proof -
  have "map Area (snd (processBackupFile failing_parse example_config kitchen_backup [] []))
          = [JStr ''Kitchen'', JStr ''Main Area'']"
    by code_simp
  moreover
  have "map Area (snd (processBackupFile kitchen_parse example_config kitchen_backup [] []))
          = [JStr ''Kitchen'', JStr ''Main Area'']"
    by code_simp
  ultimately show ?thesis by simp
qed

text \<open>The label \<open>Area <id>\<close> is the work of \<open>processDevice\<close>, which nothing calls.\<close>

lemma processDevice_area:
  "Area (processDevice dev as) =
     (case first_truthy [get dev ''Area''] of
        None \<Rightarrow> JStr ''Main Area''
      | Some areaId \<Rightarrow>
          (case map_of as (to_string areaId) of
             Some a \<Rightarrow> area_Name a
           | None \<Rightarrow> JStr (''Area '' @ to_string areaId)))"
  by (simp add: processDevice_def)

text \<open>With no area collected, every reference gives \<open>Main Area\<close>.\<close>

lemma no_area_Main_Area: "area_name (default_area []) k = JStr ''Main Area''"
  by (simp add: area_name_def default_area_def)

lemma named_areas_Nil: "named_areas []"
  by (simp add: named_areas_def)

lemma named_areas_update:
  "named_areas as \<Longrightarrow> truthy (area_Name a) \<Longrightarrow> named_areas (AList.update k a as)"
  by (simp add: named_areas_def update_conv')

lemma truthy_or_else: "truthy d \<Longrightarrow> truthy (or_else vs d)"
  by (induction vs) (auto simp: or_else_def truthy_opt_def split: option.splits)

lemma named_areas_default: "named_areas as \<Longrightarrow> named_areas (default_area as)"
  by (auto simp: default_area_def named_areas_def)

lemma re_match_captures:
  "re_match as s = Some (gs, r) \<Longrightarrow> list_all2 (\<lambda>g mn. mn \<le> length g) gs (capture_mins as)"
  "re_repeat c g mn cap as acc s = Some (gs, r) \<Longrightarrow>
     list_all2 (\<lambda>g mn. mn \<le> length g) gs (if cap then mn # capture_mins as else capture_mins as)"
proof (induction as s and c g mn cap as acc s arbitrary: gs r and gs r rule: re_match_re_repeat.induct)
  case (1 s)
  then show ?case by simp
next
  case (2 l as s)
  then show ?case by (simp split: if_splits)
next
  case (3 c g mn cap as s)
  then show ?case by simp
next
  case (4 c mn cap as acc s)
  show ?case
  proof (cases "case s of x # xs \<Rightarrow> if cls_ok c x then re_repeat c True mn cap as (x # acc) xs else None
                        | [] \<Rightarrow> None")
    case (Some res)
    with "4.prems" have res: "res = (gs, r)" by simp
    from Some obtain x xs where s: "s = x # xs" "cls_ok c x"
      "re_repeat c True mn cap as (x # acc) xs = Some res"
      by (auto split: list.splits if_splits)
    from "4.IH"(1) [OF s(1) s(2)] s(3) res show ?thesis by simp
  next
    case None
    with "4.prems" obtain gs' where h: "mn \<le> length acc" "re_match as s = Some (gs', r)"
      "gs = (if cap then rev acc # gs' else gs')"
      by (auto split: if_splits option.splits)
    from "4.IH"(2) [OF None h(1) h(2)] h show ?thesis by simp
  qed
next
  case (5 c mn cap as acc s)
  show ?case
  proof (cases "if mn \<le> length acc
            then (case re_match as s of Some (gs, r) \<Rightarrow> Some (if cap then rev acc # gs else gs, r)
                                | None \<Rightarrow> None)
            else None")
    case (Some res)
    with "5.prems" have res: "res = (gs, r)" by simp
    from Some res obtain gs' where h: "mn \<le> length acc" "re_match as s = Some (gs', r)"
      "gs = (if cap then rev acc # gs' else gs')"
      by (auto split: if_splits option.splits)
    from "5.IH"(1) [OF h(1) h(2)] h show ?thesis by simp
  next
    case None
    with "5.prems" obtain x xs where s: "s = x # xs" "cls_ok c x"
      "re_repeat c False mn cap as (x # acc) xs = Some (gs, r)"
      by (auto split: list.splits if_splits)
    from "5.IH"(2) [OF None s(1) s(2) s(3)] show ?thesis by simp
  qed
qed


lemma re_search_captures:
  "re_search re s = Some (m, gs, r) \<Longrightarrow> list_all2 (\<lambda>g mn. mn \<le> length g) gs (capture_mins re)"
  by (induction re s rule: re_search.induct)
     (auto split: option.splits dest: re_match_captures(1))

lemma exec_all_captures:
  "(m, gs) \<in> set (exec_all re s) \<Longrightarrow> list_all2 (\<lambda>g mn. mn \<le> length g) gs (capture_mins re)"
proof (induction re s rule: exec_all.induct)
  case (1 re s)
  show ?case
  proof (cases "re_search re s")
    case None
    with "1.prems" show ?thesis by (simp add: exec_all.simps)
  next
    case (Some res)
    obtain m' gs' r where res: "res = (m', gs', r)" by (cases res)
    show ?thesis
    proof (cases "(m, gs) = (m', gs')")
      case True
      with Some res re_search_captures [of re s m' gs' r] show ?thesis by simp
    next
      case False
      with "1.prems" Some res have "length r < length s" "(m, gs) \<in> set (exec_all re r)"
        by (auto simp: exec_all.simps [of re s] split: if_splits)
      with "1.IH" [OF Some] res show ?thesis by simp
    qed
  qed
qed

lemma area_matches_named:
  assumes "(m, gs) \<in> set (exec_all areaRegex s)"
  shows "\<exists>vid name. gs = [vid, name] \<and> name \<noteq> []"
proof -
  from exec_all_captures [OF assms]
  have "list_all2 (\<lambda>g mn. mn \<le> length g) gs [1, 1]"
    by (simp add: areaRegex_def)
  then show ?thesis
    by (auto simp: list_all2_Cons2)
qed

lemma named_areas_matches:
  assumes "named_areas as" and "\<forall>(m, gs) \<in> set ms. \<exists>vid name. gs = [vid, name] \<and> name \<noteq> []"
  shows "named_areas (add_area_matches ms as)"
  using assms
proof (induction ms arbitrary: as)
  case Nil
  then show ?case by simp
next
  case (Cons mg ms)
  obtain m gs where mg: "mg = (m, gs)" by (cases mg)
  with Cons.prems obtain vid name where g: "gs = [vid, name]" "name \<noteq> []" by auto
  have "named_areas (AList.update vid \<lparr>area_VID = JStr vid, area_Name = JStr name\<rparr> as)"
    using Cons.prems(1) g by (simp add: named_areas_update)
  with Cons mg g show ?case by simp
qed

lemma named_areas_extractAreasDirectly:
  "named_areas as \<Longrightarrow> named_areas (extractAreasDirectly fileContent as)"
  unfolding extractAreasDirectly_def
  by (intro named_areas_default named_areas_matches) (auto dest: area_matches_named)

lemma named_areas_pass1: "named_areas as \<Longrightarrow> named_areas (area_pass1 obj as)"
  by (auto simp: area_pass1_def named_areas_update truthy_or_else split: option.splits)

lemma named_areas_pass2: "named_areas as \<Longrightarrow> named_areas (area_pass2 obj as)"
  by (auto simp: area_pass2_def named_areas_update truthy_or_else split: option.splits)

lemma named_areas_pass3: "named_areas as \<Longrightarrow> named_areas (area_pass3 obj as)"
  by (auto simp: area_pass3_def Let_def named_areas_update truthy_or_else split: option.splits)

lemma named_areas_fold:
  assumes "\<And>obj as. named_areas as \<Longrightarrow> named_areas (f obj as)"
  shows "named_areas as \<Longrightarrow> named_areas (fold f objects as)"
  by (induction objects arbitrary: as) (simp_all add: assms)

lemma named_areas_structured_pass:
  "named_areas as \<Longrightarrow> named_areas (fst (structured_pass cfg objects as devices))"
  by (simp add: structured_pass_def Let_def named_areas_default named_areas_fold
        named_areas_pass1 named_areas_pass2 named_areas_pass3 named_areas_Nil)

lemma named_areas_extractDevicesDirectly:
  "named_areas as \<Longrightarrow> named_areas (fst (extractDevicesDirectly cfg fileContent as devices))"
  by (simp add: extractDevicesDirectly_def Let_def named_areas_extractAreasDirectly named_areas_Nil)


text \<open>The areas that \<open>processBackupFile\<close> leaves have truthy names when those it got have.\<close>

lemma named_areas_processBackupFile:
  assumes "named_areas as"
  shows "named_areas (fst (processBackupFile parse cfg fileContent as devices))"
proof -
  let ?fc = "filter (\<lambda>c. c \<noteq> CR \<and> c \<noteq> LF) fileContent"
  have a: "named_areas (extractAreasDirectly ?fc as)"
    using assms by (rule named_areas_extractAreasDirectly)
  show ?thesis
    unfolding processBackupFile_unfold
    by (simp add: a named_areas_structured_pass named_areas_extractDevicesDirectly
          split: option.splits sum.splits)
qed

subsection \<open>Fallthrough of the backup parser\<close>

text \<open>When the parser throws, or its tree has no object collection, the direct tier runs.\<close>

lemma processBackupFile_falls_through:
  assumes "(case group1 (sectionRegex ''Objects'') (filter (\<lambda>c. c \<noteq> CR \<and> c \<noteq> LF) fileContent) of
              Some inner \<Rightarrow> Some inner
            | None \<Rightarrow> group1 (sectionRegex ''Project'') (filter (\<lambda>c. c \<noteq> CR \<and> c \<noteq> LF) fileContent))
           = Some inner"
      and "(\<exists>e. parse (''<Objects>'' @ inner @ ''</Objects>'') = Inl e)
           \<or> (\<exists>result. parse (''<Objects>'' @ inner @ ''</Objects>'') = Inr result \<and> objects_of result = None)"
  shows "processBackupFile parse cfg fileContent as devices
           = extractDevicesDirectly cfg (filter (\<lambda>c. c \<noteq> CR \<and> c \<noteq> LF) fileContent)
               (extractAreasDirectly (filter (\<lambda>c. c \<noteq> CR \<and> c \<noteq> LF) fileContent) as) devices"
  using assms by (auto simp: processBackupFile_unfold)

text \<open>When the text has neither section, nothing more is tried.\<close>

lemma processBackupFile_no_section:
  assumes "group1 (sectionRegex ''Objects'') (filter (\<lambda>c. c \<noteq> CR \<and> c \<noteq> LF) fileContent) = None"
      and "group1 (sectionRegex ''Project'') (filter (\<lambda>c. c \<noteq> CR \<and> c \<noteq> LF) fileContent) = None"
  shows "snd (processBackupFile parse cfg fileContent as devices) = devices"
  using assms by (simp add: processBackupFile_unfold)

text \<open>
  C9 fails on the code: a backup whose \<open>Objects\<close> section is not closed holds the device
  \<open>55\<close> in the simple shape, which the direct tier extracts; \<open>processBackupFile\<close> returns
  before it, with no device, whatever the parser does.
\<close>

theorem unclosed_section_skips_direct_tier:
  "snd (processBackupFile parse example_config truncated_backup [] []) = []
   \<and> snd (extractDevicesDirectly example_config truncated_backup [] [])
       = [\<lparr>VID = ''55'', Name = JStr ''Lamp'', ObjectType = ''Load'', LoadType = JStr [],
           DeviceCategory = JStr [], Area = JStr ''Main Area''\<rparr>]"
proof -
  have f: "filter (\<lambda>c. c \<noteq> CR \<and> c \<noteq> LF) truncated_backup = truncated_backup"
    by code_simp
  have o: "group1 (sectionRegex ''Objects'') truncated_backup = None"
    by code_simp
  have p: "group1 (sectionRegex ''Project'') truncated_backup = None"
    by code_simp
  have d: "snd (extractDevicesDirectly example_config truncated_backup [] [])
       = [\<lparr>VID = ''55'', Name = JStr ''Lamp'', ObjectType = ''Load'', LoadType = JStr [],
           DeviceCategory = JStr [], Area = JStr ''Main Area''\<rparr>]"
    by code_simp
  from processBackupFile_no_section [of truncated_backup parse example_config "[]" "[]"] f o p d
  show ?thesis by simp
qed

end
